theory Spec2Isabelle
  imports Main "HOL-Library.Multiset"
begin

section \<open>Data model of \<^verbatim>\<open>backend/main.py\<close>\<close>

text \<open>
  The two tables and the two schemas of the program. A \<^verbatim>\<open>datetime\<close> is the number of
  microseconds since the epoch, an \<^verbatim>\<open>Optional[str]\<close> is a \<open>string option\<close>, Python's
  integers are \<open>int\<close>. The records share field names, as the classes do, so every
  field is written with its record's name: \<open>Like.image_id\<close>, \<open>Image.id\<close>.
\<close>

record Image =
  id :: int
  author_name :: "string option"
  image_name :: "string option"
  original_filename :: string
  stored_filename :: string
  content_type :: "string option"
  size :: "int option"
  created_at :: int

record Like =
  id :: int
  image_id :: int
  user_hash :: string
  created_at :: int

record ImageOut =
  id :: int
  author_name :: "string option"
  image_name :: "string option"
  original_filename :: string
  stored_filename :: string
  content_type :: "string option"
  size :: "int option"
  created_at :: int
  likes_count :: int
  liked_by_user :: bool
  image_url :: string

record LikeAction =
  user_hash :: string
  action :: string

text \<open>The dictionary that \<^verbatim>\<open>like_image\<close> returns, with its three keys.\<close>

record LikeResult =
  image_id :: int
  likes_count :: int
  liked_by_user :: bool

text \<open>
  What the handler reads of a starlette \<^verbatim>\<open>UploadFile\<close>: its \<^verbatim>\<open>filename\<close>, its
  \<^verbatim>\<open>content_type\<close> and the bytes that \<^verbatim>\<open>read()\<close> returns.
\<close>

record UploadFile =
  filename :: "string option"
  content_type :: "string option"
  contents :: string

text \<open>
  The state: the rows of the tables \<^verbatim>\<open>images\<close> and \<^verbatim>\<open>likes\<close> in insertion order, and
  the files under \<^verbatim>\<open>data/images\<close>, by path.
\<close>

record Store =
  images :: "Image list"
  likes :: "Like list"
  files :: "string \<rightharpoonup> string"

definition init_store :: Store where
  "init_store = \<lparr>images = [], likes = [], files = Map.empty\<rparr>"

text \<open>
  The exceptions that reach a caller: \<^verbatim>\<open>HTTPException(status_code, detail)\<close>,
  sqlalchemy's \<^verbatim>\<open>IntegrityError\<close>, the \<^verbatim>\<open>OverflowError\<close> of the database driver, and
  the \<^verbatim>\<open>RequestValidationError\<close> with which the framework answers (status 422) a
  request that lacks a required parameter.
\<close>

datatype error =
  HTTPException int string | IntegrityError | OverflowError | RequestValidationError

section \<open>The record store\<close>

text \<open>
  An integer primary key without a value is given the largest key of the table plus
  one by SQLite, and 1 in an empty table.
\<close>

definition next_id :: "int list \<Rightarrow> int" where
  "next_id ids = fold max ids 0 + 1"

text \<open>
  The integers of the store are signed 64-bit values. The driver raises
  \<^verbatim>\<open>OverflowError\<close> when a statement is given a Python integer outside that range as a
  parameter.
\<close>

definition int64 :: "int \<Rightarrow> bool" where
  "int64 n = (- (2 ^ 63) \<le> n \<and> n < 2 ^ 63)"

text \<open>\<^verbatim>\<open>timedelta(days=n)\<close>, in microseconds.\<close>

definition timedelta_days :: "int \<Rightarrow> int" where
  "timedelta_days n = n * 86400000000"

text \<open>
  \<^verbatim>\<open>select(func.count(Like.id)).where(Like.image_id == image_id)\<close>: the number of Like
  rows of one image.
\<close>

definition count_likes :: "Like list \<Rightarrow> int \<Rightarrow> int" where
  "count_likes ls iid = int (length (filter (\<lambda>l. Like.image_id l = iid) ls))"

text \<open>
  The constraint \<^verbatim>\<open>uix_image_user\<close> of the table \<^verbatim>\<open>likes\<close>: no two rows with the same
  \<^verbatim>\<open>(image_id, user_hash)\<close>.
\<close>

definition uix_image_user :: "Like list \<Rightarrow> bool" where
  "uix_image_user ls = distinct (map (\<lambda>l. (Like.image_id l, Like.user_hash l)) ls)"

text \<open>The number of Like rows of one \<^verbatim>\<open>(image_id, user_hash)\<close> pair.\<close>

definition pair_rows :: "Like list \<Rightarrow> int \<Rightarrow> string \<Rightarrow> nat" where
  "pair_rows ls iid uhash =
     length (filter (\<lambda>l. Like.image_id l = iid \<and> Like.user_hash l = uhash) ls)"

text \<open>
  \<^verbatim>\<open>db.add(like); db.commit()\<close>: the INSERT into \<^verbatim>\<open>likes\<close>. The store refuses a second
  row for a pair with \<^verbatim>\<open>IntegrityError\<close>; otherwise the row is appended under the next
  key.
\<close>

definition insert_like :: "int \<Rightarrow> string \<Rightarrow> int \<Rightarrow> Store \<Rightarrow> error + Store" where
  "insert_like iid uhash now s =
     (if \<exists>l \<in> set (likes s). Like.image_id l = iid \<and> Like.user_hash l = uhash
      then Inl IntegrityError
      else Inr (s\<lparr>likes := likes s @
             [\<lparr>Like.id = next_id (map Like.id (likes s)),
               Like.image_id = iid,
               Like.user_hash = uhash,
               Like.created_at = now\<rparr>]\<rparr>))"

text \<open>
  \<^verbatim>\<open>delete(Like).where(Like.image_id == image_id, Like.user_hash == user_hash)\<close>,
  committed.
\<close>

definition delete_like :: "int \<Rightarrow> string \<Rightarrow> Store \<Rightarrow> Store" where
  "delete_like iid uhash s =
     s\<lparr>likes := filter (\<lambda>l. \<not> (Like.image_id l = iid \<and> Like.user_hash l = uhash))
                   (likes s)\<rparr>"

text \<open>
  \<^verbatim>\<open>db.get(Image, image_id)\<close>: the row with that primary key, or \<^verbatim>\<open>None\<close>. The key is a
  parameter of the SELECT, so a key outside the 64-bit range raises \<^verbatim>\<open>OverflowError\<close>.
\<close>

definition get_image :: "Store \<Rightarrow> int \<Rightarrow> error + Image option" where
  "get_image s iid =
     (if int64 iid then Inr (find (\<lambda>img. Image.id img = iid) (images s))
      else Inl OverflowError)"

section \<open>\<^verbatim>\<open>like_image\<close>\<close>

text \<open>
  \<^verbatim>\<open>POST /api/images/{image_id}/like\<close>. The handler returns its result, or the exception
  it raises, and the store it leaves. \<open>now\<close> is the value of \<^verbatim>\<open>datetime.utcnow()\<close>,
  \<open>iid\<close> the path parameter \<^verbatim>\<open>image_id\<close> and \<open>act\<close> the body \<^verbatim>\<open>action\<close>.
  The payload is checked first, then the image is looked up; the \<^verbatim>\<open>OverflowError\<close> of
  the lookup is not caught, an \<^verbatim>\<open>IntegrityError\<close> of the commit is caught and rolled
  back.
\<close>

definition like_image ::
  "int \<Rightarrow> int \<Rightarrow> LikeAction \<Rightarrow> Store \<Rightarrow> (error + LikeResult) \<times> Store" where
  "like_image now iid act s =
     (if LikeAction.user_hash act = [] \<or>
         LikeAction.action act \<notin> set [''like'', ''unlike'']
      then (Inl (HTTPException 400 ''Invalid payload''), s)
      else case get_image s iid of
        Inl e \<Rightarrow> (Inl e, s)
      | Inr None \<Rightarrow> (Inl (HTTPException 404 ''Image not found''), s)
      | Inr (Some img) \<Rightarrow>
          if LikeAction.action act = ''like''
          then
            let s' = (case insert_like iid (LikeAction.user_hash act) now s of
                        Inl e \<Rightarrow> s
                      | Inr s1 \<Rightarrow> s1);
                total = count_likes (likes s') iid
            in (Inr \<lparr>LikeResult.image_id = iid,
                     LikeResult.likes_count = total,
                     LikeResult.liked_by_user = True\<rparr>, s')
          else
            let s' = delete_like iid (LikeAction.user_hash act) s;
                total = count_likes (likes s') iid
            in (Inr \<lparr>LikeResult.image_id = iid,
                     LikeResult.likes_count = total,
                     LikeResult.liked_by_user = False\<rparr>, s'))"

section \<open>\<^verbatim>\<open>upload_image\<close>\<close>

text \<open>
  \<^verbatim>\<open>_create_image_record\<close>: the INSERT into \<^verbatim>\<open>images\<close>. \<^verbatim>\<open>stored_filename\<close> is unique in
  the table, so the commit of a second row with the same name raises
  \<^verbatim>\<open>IntegrityError\<close>.
\<close>

definition create_image_record ::
  "string option \<Rightarrow> string option \<Rightarrow> string \<Rightarrow> string \<Rightarrow> string option \<Rightarrow> int \<Rightarrow>
   int \<Rightarrow> Store \<Rightarrow> error + (Image \<times> Store)" where
  "create_image_record author title original stored ctype sz now s =
     (if \<exists>i \<in> set (images s). Image.stored_filename i = stored
      then Inl IntegrityError
      else
        let img = \<lparr>Image.id = next_id (map Image.id (images s)),
                   Image.author_name = author,
                   Image.image_name = title,
                   Image.original_filename = original,
                   Image.stored_filename = stored,
                   Image.content_type = ctype,
                   Image.size = Some sz,
                   Image.created_at = now\<rparr>
        in Inr (img, s\<lparr>images := images s @ [img]\<rparr>))"

text \<open>\<^verbatim>\<open>str.rstrip("/")\<close>.\<close>

definition rstrip_slash :: "string \<Rightarrow> string" where
  "rstrip_slash b = rev (dropWhile (\<lambda>c. c = CHR ''/'') (rev b))"

text \<open>
  \<^verbatim>\<open>POST /image\<close>. \<open>path_name\<close> and \<open>path_suffix\<close> stand for pathlib's \<^verbatim>\<open>Path(p).name\<close>
  and \<^verbatim>\<open>Path(p).suffix\<close>, \<open>uuid_hex\<close> for \<^verbatim>\<open>uuid4().hex\<close>, \<open>now\<close> for
  \<^verbatim>\<open>datetime.utcnow()\<close> and \<open>base_url\<close> for \<^verbatim>\<open>str(request.base_url)\<close>. The parameter
  \<open>upload\<close> is the handler's \<^verbatim>\<open>image\<close>, declared \<^verbatim>\<open>image: UploadFile = File(...)\<close>: the
  handler is called with an \<^verbatim>\<open>UploadFile\<close> object only. Such an object is true, so the
  guard \<^verbatim>\<open>if not image\<close> of the handler, with its 400, never raises. The file is written
  before the row is committed, so it stays when the commit fails.
\<close>

definition upload_image ::
  "(string \<Rightarrow> string) \<Rightarrow> (string \<Rightarrow> string) \<Rightarrow> string \<Rightarrow> int \<Rightarrow> string \<Rightarrow>
   string option \<Rightarrow> string option \<Rightarrow> UploadFile \<Rightarrow> Store \<Rightarrow> (error + ImageOut) \<times> Store" where
  "upload_image path_name path_suffix uuid_hex now base_url authorName imageName upload s =
     (let size = int (length (UploadFile.contents upload));
          original = (case UploadFile.filename upload of
                        None \<Rightarrow> ''upload''
                      | Some n \<Rightarrow> if n = [] then ''upload'' else n);
          ext = (if path_suffix original = [] then ''.png'' else path_suffix original);
          stored_filename = uuid_hex @ ext;
          stored_path = ''data/images/'' @ stored_filename;
          s1 = s\<lparr>files := (files s)(stored_path := Some (UploadFile.contents upload))\<rparr>
      in (case create_image_record authorName imageName (path_name original)
                stored_filename (UploadFile.content_type upload) size now s1 of
           Inl e \<Rightarrow> (Inl e, s1)
         | Inr (img, s2) \<Rightarrow>
             let image_url = rstrip_slash base_url @ ''/images/'' @ stored_filename
             in (Inr \<lparr>ImageOut.id = Image.id img,
                      ImageOut.author_name = Image.author_name img,
                      ImageOut.image_name = Image.image_name img,
                      ImageOut.original_filename = Image.original_filename img,
                      ImageOut.stored_filename = Image.stored_filename img,
                      ImageOut.content_type = Image.content_type img,
                      ImageOut.size = Image.size img,
                      ImageOut.created_at = Image.created_at img,
                      ImageOut.likes_count = 0,
                      ImageOut.liked_by_user = False,
                      ImageOut.image_url = image_url\<rparr>, s2)))"

text \<open>
  The route \<^verbatim>\<open>@app.post("/image")\<close>. The framework reads the form before it calls the
  handler; \<open>image_part\<close> is the part \<^verbatim>\<open>image\<close> of the form, \<open>None\<close> when the request has
  none. The part is declared required (\<^verbatim>\<open>File(...)\<close>), so a request without it is answered
  with the framework's validation error, status 422, and the handler is not called.
\<close>

definition post_image ::
  "(string \<Rightarrow> string) \<Rightarrow> (string \<Rightarrow> string) \<Rightarrow> string \<Rightarrow> int \<Rightarrow> string \<Rightarrow>
   string option \<Rightarrow> string option \<Rightarrow> UploadFile option \<Rightarrow> Store \<Rightarrow> (error + ImageOut) \<times> Store" where
  "post_image path_name path_suffix uuid_hex now base_url authorName imageName image_part s =
     (case image_part of
        None \<Rightarrow> (Inl RequestValidationError, s)
      | Some upload \<Rightarrow>
          upload_image path_name path_suffix uuid_hex now base_url authorName imageName upload s)"

section \<open>\<^verbatim>\<open>list_images\<close>\<close>

text \<open>
  \<^verbatim>\<open>ORDER BY key DESC\<close>. SQL leaves the order of rows with equal keys to the store; here
  they stay in table order. \<^verbatim>\<open>OFFSET skip LIMIT limit\<close> is the window of the ordered
  rows. \<^verbatim>\<open>db.execute\<close> is given \<open>skip\<close> and \<open>limit\<close> as parameters of the statement, so it
  raises \<^verbatim>\<open>OverflowError\<close> when one of them is outside the 64-bit range.
\<close>

definition order_by_desc :: "('a \<Rightarrow> int) \<Rightarrow> 'a list \<Rightarrow> 'a list" where
  "order_by_desc key rows = sort_key (\<lambda>r. - key r) rows"

definition offset_limit :: "int \<Rightarrow> int \<Rightarrow> 'a list \<Rightarrow> 'a list" where
  "offset_limit skip limit rows = take (nat limit) (drop (nat skip) rows)"

definition db_execute :: "int \<Rightarrow> int \<Rightarrow> 'a list \<Rightarrow> error + 'a list" where
  "db_execute skip limit rows =
     (if int64 skip \<and> int64 limit then Inr (offset_limit skip limit rows)
      else Inl OverflowError)"

text \<open>
  The correlated subquery \<^verbatim>\<open>likes_week_subq\<close>: the Like rows of the image that were
  created at the cutoff or later.
\<close>

definition likes_week_subq :: "Like list \<Rightarrow> int \<Rightarrow> Image \<Rightarrow> int" where
  "likes_week_subq ls cutoff img =
     int (length (filter (\<lambda>l. Like.image_id l = Image.id img \<and> cutoff \<le> Like.created_at l) ls))"

text \<open>
  The three statements before their window. \<^verbatim>\<open>recent\<close> orders the images by
  \<^verbatim>\<open>created_at\<close>. \<^verbatim>\<open>popular\<close> joins every image with its Like rows (an outer join, so
  an image without one keeps a row of nulls), groups by the image's key and orders by
  the count of the Like keys of the group, which is the number of the image's Like
  rows. \<^verbatim>\<open>trending\<close> orders by the subquery, with the cutoff seven days before \<open>now\<close>.
\<close>

definition recent_stmt :: "Store \<Rightarrow> Image list" where
  "recent_stmt s = order_by_desc Image.created_at (images s)"

definition popular_stmt :: "Store \<Rightarrow> Image list" where
  "popular_stmt s = order_by_desc (\<lambda>img. count_likes (likes s) (Image.id img)) (images s)"

definition trending_stmt :: "int \<Rightarrow> Store \<Rightarrow> Image list" where
  "trending_stmt now s =
     (let cutoff = now - timedelta_days 7
      in order_by_desc (likes_week_subq (likes s) cutoff) (images s))"

text \<open>
  \<^verbatim>\<open>_get_total_likes_for_ids\<close>: the dictionary from each of the ids that has a Like row
  to the number of its Like rows; empty for no ids.
\<close>

definition get_total_likes_for_ids :: "Store \<Rightarrow> int list \<Rightarrow> (int \<rightharpoonup> int)" where
  "get_total_likes_for_ids db ids =
     (if ids = [] then Map.empty
      else (\<lambda>i. if i \<in> set ids \<and> (\<exists>l \<in> set (likes db). Like.image_id l = i)
                then Some (count_likes (likes db) i) else None))"

text \<open>
  \<^verbatim>\<open>_get_liked_ids_by_user\<close>: the ids among \<open>ids\<close> with a Like row of that user; empty
  for no ids or an empty hash.
\<close>

definition get_liked_ids_by_user :: "Store \<Rightarrow> int list \<Rightarrow> string \<Rightarrow> int set" where
  "get_liked_ids_by_user db ids uhash =
     (if ids = [] \<or> uhash = [] then {}
      else set (map Like.image_id
             (filter (\<lambda>l. Like.image_id l \<in> set ids \<and> Like.user_hash l = uhash) (likes db))))"

text \<open>
  The first three lines of \<^verbatim>\<open>list_images\<close>: the clamped page, the clamped limit and
  the offset.
\<close>

definition clamp_pagination :: "int \<Rightarrow> int \<Rightarrow> int \<times> int \<times> int" where
  "clamp_pagination page limit =
     (let page = max 1 page;
          limit = max 1 (min 100 limit);
          skip = (page - 1) * limit
      in (page, limit, skip))"

text \<open>The body of the loop that builds the response, one \<^verbatim>\<open>ImageOut\<close> for an image.\<close>

definition image_out :: "string \<Rightarrow> (int \<rightharpoonup> int) \<Rightarrow> int set \<Rightarrow> Image \<Rightarrow> ImageOut" where
  "image_out base total_likes_map liked_ids img =
     (let image_url = base @ ''/images/'' @ Image.stored_filename img
      in \<lparr>ImageOut.id = Image.id img,
          ImageOut.author_name = Image.author_name img,
          ImageOut.image_name = Image.image_name img,
          ImageOut.original_filename = Image.original_filename img,
          ImageOut.stored_filename = Image.stored_filename img,
          ImageOut.content_type = Image.content_type img,
          ImageOut.size = Image.size img,
          ImageOut.created_at = Image.created_at img,
          ImageOut.likes_count =
            (case total_likes_map (Image.id img) of None \<Rightarrow> 0 | Some c \<Rightarrow> c),
          ImageOut.liked_by_user = (Image.id img \<in> liked_ids),
          ImageOut.image_url = image_url\<rparr>)"

text \<open>
  \<^verbatim>\<open>GET /images\<close>. \<open>srt\<close> is the query parameter \<^verbatim>\<open>sort\<close>, \<open>uhash\<close> the optional
  \<^verbatim>\<open>user_hash\<close>. The handler has no \<^verbatim>\<open>raise\<close> of its own and catches nothing; it reads
  the store and returns the list, or the error of \<^verbatim>\<open>db.execute\<close> reaches the caller.
\<close>

definition list_images ::
  "string \<Rightarrow> int \<Rightarrow> int \<Rightarrow> int \<Rightarrow> string \<Rightarrow> string option \<Rightarrow> Store \<Rightarrow>
   error + ImageOut list" where
  "list_images base_url now page limit srt uhash s =
     (case clamp_pagination page limit of (page, limit, skip) \<Rightarrow>
        (case (if srt = ''recent'' then db_execute skip limit (recent_stmt s)
               else if srt = ''popular'' then db_execute skip limit (popular_stmt s)
               else if srt = ''trending'' then db_execute skip limit (trending_stmt now s)
               else db_execute skip limit (recent_stmt s)) of
           Inl e \<Rightarrow> Inl e
         | Inr rows \<Rightarrow>
             let images = rows;
                 ids = map Image.id images;
                 total_likes_map = get_total_likes_for_ids s ids;
                 liked_ids = (case uhash of
                                None \<Rightarrow> {}
                              | Some u \<Rightarrow> if u = [] then {}
                                         else get_liked_ids_by_user s ids u);
                 base = rstrip_slash base_url
             in Inr (map (image_out base total_likes_map liked_ids) images)))"

section \<open>Reachable states\<close>

text \<open>
  The states of the store: the empty tables, and every state that one of the two
  writing handlers leaves, whatever its arguments and whether it returns or raises.
  \<^verbatim>\<open>list_images\<close> only reads.
\<close>

inductive reachable :: "Store \<Rightarrow> bool" where
  init: "reachable init_store"
| upload:
    "reachable s \<Longrightarrow>
     reachable (snd (upload_image path_name path_suffix uuid_hex now base_url
                       authorName imageName upload s))"
| like: "reachable s \<Longrightarrow> reachable (snd (like_image now iid act s))"

section \<open>An example run\<close>

text \<open>
  Two uploads, A on day 1 and B on day 2; two users like A on day 10 and one user
  likes B on day 19. On day 20 the likes of A are ten days old and the like of B is
  one day old.
\<close>

definition day :: "int \<Rightarrow> int" where
  "day n = timedelta_days n"

definition example_file :: UploadFile where
  "example_file = \<lparr>UploadFile.filename = Some ''cat.jpg'',
                    UploadFile.content_type = Some ''image/jpeg'',
                    UploadFile.contents = ''xy''\<rparr>"

definition example_upload :: "string \<Rightarrow> int \<Rightarrow> Store \<Rightarrow> (error + ImageOut) \<times> Store" where
  "example_upload uuid_hex now s =
     upload_image (\<lambda>p. p) (\<lambda>p. ''.jpg'') uuid_hex now ''http://host/'' None (Some ''Cat'')
       example_file s"

definition example_like :: "int \<Rightarrow> int \<Rightarrow> string \<Rightarrow> Store \<Rightarrow> (error + LikeResult) \<times> Store" where
  "example_like now iid uhash s =
     like_image now iid \<lparr>LikeAction.user_hash = uhash, LikeAction.action = ''like''\<rparr> s"

definition example_unlike :: "int \<Rightarrow> int \<Rightarrow> string \<Rightarrow> Store \<Rightarrow> (error + LikeResult) \<times> Store" where
  "example_unlike now iid uhash s =
     like_image now iid \<lparr>LikeAction.user_hash = uhash, LikeAction.action = ''unlike''\<rparr> s"

definition two_images :: Store where
  "two_images = snd (example_upload ''bb'' (day 2) (snd (example_upload ''aa'' (day 1) init_store)))"

definition example_store :: Store where
  "example_store =
     snd (example_like (day 19) 2 ''u3''
       (snd (example_like (day 10) 1 ''u2''
         (snd (example_like (day 10) 1 ''u1'' two_images)))))"

text \<open>
  The two images of the example, and the example after a third upload on day 15,
  which nobody likes.
\<close>

definition image_A :: Image where
  "image_A = images two_images ! 0"

definition image_B :: Image where
  "image_B = images two_images ! 1"

definition three_images :: Store where
  "three_images = snd (example_upload ''cc'' (day 15) example_store)"

definition image_C :: Image where
  "image_C = images three_images ! 2"

section \<open>Facts about the store\<close>

lemma get_image_None:
  "int64 iid \<Longrightarrow> (get_image s iid = Inr None) = (iid \<notin> Image.id ` set (images s))"
  by (auto simp: get_image_def find_None_iff)

lemma get_image_Some:
  "int64 iid \<Longrightarrow> iid \<in> Image.id ` set (images s) \<Longrightarrow> \<exists>img. get_image s iid = Inr (Some img)"
  using get_image_None [of iid s] by (auto simp: get_image_def)

lemma get_image_overflow: "\<not> int64 iid \<Longrightarrow> get_image s iid = Inl OverflowError"
  by (simp add: get_image_def)

lemma insert_like_images:
  "insert_like iid u now s = Inr s1 \<Longrightarrow> images s1 = images s"
  by (auto simp: insert_like_def split: if_splits)

lemma like_image_images: "images (snd (like_image now iid act s)) = images s"
  by (auto simp: like_image_def Let_def delete_like_def insert_like_def split: option.splits sum.splits if_splits)

lemma like_image_like:
  assumes "LikeAction.user_hash act \<noteq> []" "LikeAction.action act = ''like''"
    and "iid \<in> Image.id ` set (images s)" and "int64 iid"
  shows "like_image now iid act s =
     (let s' = (if \<exists>l \<in> set (likes s). Like.image_id l = iid \<and> Like.user_hash l = LikeAction.user_hash act
                then s
                else s\<lparr>likes := likes s @ [\<lparr>Like.id = next_id (map Like.id (likes s)),
                        Like.image_id = iid, Like.user_hash = LikeAction.user_hash act,
                        Like.created_at = now\<rparr>]\<rparr>)
      in (Inr \<lparr>LikeResult.image_id = iid, LikeResult.likes_count = count_likes (likes s') iid,
               LikeResult.liked_by_user = True\<rparr>, s'))"
proof -
  obtain img where "get_image s iid = Inr (Some img)"
    using get_image_Some [OF assms(4,3)] by blast
  then show ?thesis
    using assms(1,2)
    by (cases "\<exists>l \<in> set (likes s). Like.image_id l = iid \<and>
                 Like.user_hash l = LikeAction.user_hash act")
      (auto simp: like_image_def insert_like_def Let_def)
qed

lemma like_image_unlike:
  assumes "LikeAction.user_hash act \<noteq> []" "LikeAction.action act = ''unlike''"
    and "iid \<in> Image.id ` set (images s)" and "int64 iid"
  shows "like_image now iid act s =
     (let s' = delete_like iid (LikeAction.user_hash act) s
      in (Inr \<lparr>LikeResult.image_id = iid, LikeResult.likes_count = count_likes (likes s') iid,
               LikeResult.liked_by_user = False\<rparr>, s'))"
proof -
  obtain img where "get_image s iid = Inr (Some img)"
    using get_image_Some [OF assms(4,3)] by blast
  then show ?thesis
    using assms(1,2) by (simp add: like_image_def Let_def)
qed

lemma pair_rows_0: "(pair_rows ls iid u = 0) = (\<not> (\<exists>l \<in> set ls. Like.image_id l = iid \<and> Like.user_hash l = u))"
  by (auto simp: pair_rows_def filter_empty_conv)

lemma uix_pair_rows_le: "uix_image_user ls \<Longrightarrow> pair_rows ls iid u \<le> 1"
proof (induction ls)
  case Nil
  then show ?case by (simp add: pair_rows_def)
next
  case (Cons l ls)
  have tl: "uix_image_user ls" using Cons.prems by (simp add: uix_image_user_def)
  show ?case
  proof (cases "Like.image_id l = iid \<and> Like.user_hash l = u")
    case True
    then have "\<not> (\<exists>l' \<in> set ls. Like.image_id l' = iid \<and> Like.user_hash l' = u)"
      using Cons.prems by (auto simp: uix_image_user_def image_iff)
    then have "pair_rows ls iid u = 0" by (simp add: pair_rows_0)
    then show ?thesis using True by (simp add: pair_rows_def)
  next
    case False
    then show ?thesis using Cons.IH [OF tl] by (auto simp: pair_rows_def)
  qed
qed

lemma uix_insert:
  "uix_image_user ls \<Longrightarrow> \<not> (\<exists>l \<in> set ls. Like.image_id l = iid \<and> Like.user_hash l = u) \<Longrightarrow>
   Like.image_id n = iid \<Longrightarrow> Like.user_hash n = u \<Longrightarrow> uix_image_user (ls @ [n])"
  by (force simp: uix_image_user_def)

lemma uix_filter: "uix_image_user ls \<Longrightarrow> uix_image_user (filter P ls)"
  by (simp add: uix_image_user_def distinct_map_filter)

lemma like_image_uix:
  "uix_image_user (likes s) \<Longrightarrow> uix_image_user (likes (snd (like_image now iid act s)))"
  by (auto simp: like_image_def Let_def delete_like_def insert_like_def uix_filter
      intro!: uix_insert split: option.splits sum.splits)

lemma upload_image_likes:
  "likes (snd (upload_image pn ps tok now b a i up s)) = likes s"
  by (simp add: upload_image_def create_image_record_def Let_def)

lemma reachable_uix: "reachable s \<Longrightarrow> uix_image_user (likes s)"
proof (induction rule: reachable.induct)
  case init
  show ?case by (simp add: init_store_def uix_image_user_def)
next
  case (upload s path_name path_suffix uuid_hex now base_url authorName imageName upload)
  then show ?case by (simp add: upload_image_likes)
next
  case (like s now iid act)
  show ?case by (rule like_image_uix [OF like.IH])
qed

lemma two_images_eq:
  "two_images =
     \<lparr>images =
        [\<lparr>Image.id = 1, Image.author_name = None, Image.image_name = Some ''Cat'',
          Image.original_filename = ''cat.jpg'', Image.stored_filename = ''aa.jpg'',
          Image.content_type = Some ''image/jpeg'', Image.size = Some 2,
          Image.created_at = 86400000000\<rparr>,
         \<lparr>Image.id = 2, Image.author_name = None, Image.image_name = Some ''Cat'',
          Image.original_filename = ''cat.jpg'', Image.stored_filename = ''bb.jpg'',
          Image.content_type = Some ''image/jpeg'', Image.size = Some 2,
          Image.created_at = 172800000000\<rparr>],
      likes = [],
      files = (Map.empty(''data/images/aa.jpg'' := Some ''xy''))(''data/images/bb.jpg'' := Some ''xy'')\<rparr>"
  by (simp add: two_images_def example_upload_def upload_image_def create_image_record_def
      example_file_def init_store_def next_id_def day_def timedelta_days_def Let_def)

lemma example_store_images: "images example_store = images two_images"
  by (simp add: example_store_def example_like_def like_image_images)

lemma example_store_likes:
  "likes example_store =
     [\<lparr>Like.id = 1, Like.image_id = 1, Like.user_hash = ''u1'', Like.created_at = 864000000000\<rparr>,
      \<lparr>Like.id = 2, Like.image_id = 1, Like.user_hash = ''u2'', Like.created_at = 864000000000\<rparr>,
      \<lparr>Like.id = 3, Like.image_id = 2, Like.user_hash = ''u3'', Like.created_at = 1641600000000\<rparr>]"
  by (simp add: example_store_def example_like_def like_image_def get_image_def int64_def
      insert_like_def two_images_eq next_id_def day_def timedelta_days_def Let_def)

lemma like_image_valid_found:
  assumes "LikeAction.user_hash act \<noteq> []"
    and "LikeAction.action act = ''like'' \<or> LikeAction.action act = ''unlike''"
    and "iid \<in> Image.id ` set (images s)" and "int64 iid"
  shows "\<exists>r. fst (like_image now iid act s) = Inr r"
  using assms like_image_like [of act iid s now] like_image_unlike [of act iid s now]
  by (auto simp: Let_def)

lemma like_image_invalid:
  "LikeAction.user_hash act = [] \<or>
   (LikeAction.action act \<noteq> ''like'' \<and> LikeAction.action act \<noteq> ''unlike'') \<Longrightarrow>
   like_image now iid act s = (Inl (HTTPException 400 ''Invalid payload''), s)"
  by (auto simp: like_image_def)

lemma like_image_out_of_range:
  assumes "LikeAction.user_hash act \<noteq> []"
    and "LikeAction.action act = ''like'' \<or> LikeAction.action act = ''unlike''"
    and "\<not> int64 iid"
  shows "like_image now iid act s = (Inl OverflowError, s)"
  using assms by (auto simp: like_image_def get_image_overflow)

lemma like_image_missing:
  assumes "LikeAction.user_hash act \<noteq> []"
    and "LikeAction.action act = ''like'' \<or> LikeAction.action act = ''unlike''"
    and "int64 iid" and "iid \<notin> Image.id ` set (images s)"
  shows "like_image now iid act s = (Inl (HTTPException 404 ''Image not found''), s)"
proof -
  have "get_image s iid = Inr None"
    using get_image_None [OF assms(3), of s] assms(4) by simp
  then show ?thesis
    using assms(1,2) by (auto simp: like_image_def)
qed

lemma like_image_outcome:
  "(LikeAction.user_hash act = [] \<or>
    (LikeAction.action act \<noteq> ''like'' \<and> LikeAction.action act \<noteq> ''unlike'')) \<and>
   fst (like_image now iid act s) = Inl (HTTPException 400 ''Invalid payload'') \<or>
   LikeAction.user_hash act \<noteq> [] \<and>
   (LikeAction.action act = ''like'' \<or> LikeAction.action act = ''unlike'') \<and>
   \<not> int64 iid \<and> fst (like_image now iid act s) = Inl OverflowError \<or>
   LikeAction.user_hash act \<noteq> [] \<and>
   (LikeAction.action act = ''like'' \<or> LikeAction.action act = ''unlike'') \<and>
   int64 iid \<and> iid \<notin> Image.id ` set (images s) \<and>
   fst (like_image now iid act s) = Inl (HTTPException 404 ''Image not found'') \<or>
   LikeAction.user_hash act \<noteq> [] \<and>
   (LikeAction.action act = ''like'' \<or> LikeAction.action act = ''unlike'') \<and>
   int64 iid \<and> iid \<in> Image.id ` set (images s) \<and>
   (\<exists>r. fst (like_image now iid act s) = Inr r)"
proof -
  consider
    (invalid) "LikeAction.user_hash act = [] \<or>
       (LikeAction.action act \<noteq> ''like'' \<and> LikeAction.action act \<noteq> ''unlike'')"
  | (range) "LikeAction.user_hash act \<noteq> []"
      "LikeAction.action act = ''like'' \<or> LikeAction.action act = ''unlike''" "\<not> int64 iid"
  | (missing) "LikeAction.user_hash act \<noteq> []"
      "LikeAction.action act = ''like'' \<or> LikeAction.action act = ''unlike''" "int64 iid"
      "iid \<notin> Image.id ` set (images s)"
  | (found) "LikeAction.user_hash act \<noteq> []"
      "LikeAction.action act = ''like'' \<or> LikeAction.action act = ''unlike''" "int64 iid"
      "iid \<in> Image.id ` set (images s)"
    by blast
  then show ?thesis
  proof cases
    case invalid
    then show ?thesis using like_image_invalid [OF invalid, of now iid s] by simp
  next
    case range
    then show ?thesis using like_image_out_of_range [OF range, of now s] by simp
  next
    case missing
    then show ?thesis using like_image_missing [OF missing, of now] by simp
  next
    case found
    then show ?thesis using like_image_valid_found [OF found(1,2,4,3), of now] by blast
  qed
qed

lemma like_image_400:
  "(fst (like_image now iid act s) = Inl (HTTPException 400 ''Invalid payload'')) =
   (LikeAction.user_hash act = [] \<or>
    (LikeAction.action act \<noteq> ''like'' \<and> LikeAction.action act \<noteq> ''unlike''))"
  using like_image_outcome [of act now iid s] by auto

lemma like_image_404:
  "(fst (like_image now iid act s) = Inl (HTTPException 404 ''Image not found'')) =
   (LikeAction.user_hash act \<noteq> [] \<and>
    (LikeAction.action act = ''like'' \<or> LikeAction.action act = ''unlike'') \<and>
    int64 iid \<and> iid \<notin> Image.id ` set (images s))"
  using like_image_outcome [of act now iid s] by auto

lemma like_image_returns:
  "(\<exists>r. fst (like_image now iid act s) = Inr r) =
   (LikeAction.user_hash act \<noteq> [] \<and>
    (LikeAction.action act = ''like'' \<or> LikeAction.action act = ''unlike'') \<and>
    int64 iid \<and> iid \<in> Image.id ` set (images s))"
  using like_image_outcome [of act now iid s] by auto

section \<open>The errors of \<^verbatim>\<open>like_image\<close>\<close>

text \<open>
  With an empty \<^verbatim>\<open>user_hash\<close> and no image in the store, the handler raises the 400 of
  the payload check, not the 404 of the lookup.
\<close>

theorem like_image_not_found_counterexample:
  "images init_store = [] \<and>
   fst (like_image 0 1 \<lparr>LikeAction.user_hash = [], LikeAction.action = ''like''\<rparr> init_store)
     = Inl (HTTPException 400 ''Invalid payload'') \<and>
   fst (like_image 0 1 \<lparr>LikeAction.user_hash = [], LikeAction.action = ''like''\<rparr> init_store)
     \<noteq> Inl (HTTPException 404 ''Image not found'')"
  by (simp add: like_image_def init_store_def)

text \<open>
  Claim C2, as the code has it. The handler raises 400 exactly when \<^verbatim>\<open>user_hash\<close> is
  empty or \<^verbatim>\<open>action\<close> is neither \<^verbatim>\<open>like\<close> nor \<^verbatim>\<open>unlike\<close>. It raises 404 exactly when
  the payload is valid, the id is a signed 64-bit integer and no image has it. It
  returns a result exactly when the payload is valid, the id is a signed 64-bit integer
  and an image with the id exists.
\<close>

theorem like_image_errors:
  "((fst (like_image now iid act s) = Inl (HTTPException 400 ''Invalid payload'')) =
      (LikeAction.user_hash act = [] \<or>
       (LikeAction.action act \<noteq> ''like'' \<and> LikeAction.action act \<noteq> ''unlike''))) \<and>
   ((fst (like_image now iid act s) = Inl (HTTPException 404 ''Image not found'')) =
      (LikeAction.user_hash act \<noteq> [] \<and>
       (LikeAction.action act = ''like'' \<or> LikeAction.action act = ''unlike'') \<and>
       - (2 ^ 63) \<le> iid \<and> iid < 2 ^ 63 \<and>
       iid \<notin> Image.id ` set (images s))) \<and>
   ((\<exists>r. fst (like_image now iid act s) = Inr r) =
      (LikeAction.user_hash act \<noteq> [] \<and>
       (LikeAction.action act = ''like'' \<or> LikeAction.action act = ''unlike'') \<and>
       - (2 ^ 63) \<le> iid \<and> iid < 2 ^ 63 \<and>
       iid \<in> Image.id ` set (images s)))"
proof (intro conjI)
  show "(fst (like_image now iid act s) = Inl (HTTPException 400 ''Invalid payload'')) =
      (LikeAction.user_hash act = [] \<or>
       (LikeAction.action act \<noteq> ''like'' \<and> LikeAction.action act \<noteq> ''unlike''))"
    by (rule like_image_400)
  show "(fst (like_image now iid act s) = Inl (HTTPException 404 ''Image not found'')) =
      (LikeAction.user_hash act \<noteq> [] \<and>
       (LikeAction.action act = ''like'' \<or> LikeAction.action act = ''unlike'') \<and>
       - (2 ^ 63) \<le> iid \<and> iid < 2 ^ 63 \<and>
       iid \<notin> Image.id ` set (images s))"
    unfolding like_image_404 int64_def by blast
  show "(\<exists>r. fst (like_image now iid act s) = Inr r) =
      (LikeAction.user_hash act \<noteq> [] \<and>
       (LikeAction.action act = ''like'' \<or> LikeAction.action act = ''unlike'') \<and>
       - (2 ^ 63) \<le> iid \<and> iid < 2 ^ 63 \<and>
       iid \<in> Image.id ` set (images s))"
    unfolding like_image_returns int64_def by blast
qed

theorem like_image_errors_witness:
  "fst (example_like 0 1 ''u9'' two_images) \<noteq> Inl (HTTPException 400 ''Invalid payload'') \<and>
   fst (example_like 0 1 ''u9'' two_images) \<noteq> Inl (HTTPException 404 ''Image not found'') \<and>
   (\<exists>r. fst (example_like 0 1 ''u9'' two_images) = Inr r) \<and>
   fst (example_like 0 3 ''u9'' two_images) = Inl (HTTPException 404 ''Image not found'') \<and>
   fst (example_like 0 1 [] two_images) = Inl (HTTPException 400 ''Invalid payload'') \<and>
   fst (example_like 0 9223372036854775808 ''u9'' two_images)
     \<noteq> Inl (HTTPException 404 ''Image not found'') \<and>
   fst (example_like 0 9223372036854775808 ''u9'' two_images) = Inl OverflowError"
proof -
  have o: "fst (example_like 0 9223372036854775808 ''u9'' two_images) = Inl OverflowError"
    by (simp add: example_like_def like_image_def get_image_def int64_def)
  show ?thesis
    using like_image_errors [of 0 1 "\<lparr>LikeAction.user_hash = ''u9'', LikeAction.action = ''like''\<rparr>" two_images]
      like_image_errors [of 0 3 "\<lparr>LikeAction.user_hash = ''u9'', LikeAction.action = ''like''\<rparr>" two_images]
      like_image_errors [of 0 1 "\<lparr>LikeAction.user_hash = [], LikeAction.action = ''like''\<rparr>" two_images]
      like_image_errors [of 0 9223372036854775808
        "\<lparr>LikeAction.user_hash = ''u9'', LikeAction.action = ''like''\<rparr>" two_images] o
    by (simp add: example_like_def two_images_eq)
qed

text \<open>
  Claim C10. The payload is checked before the image is looked up: a request with an
  empty \<^verbatim>\<open>user_hash\<close> or an unrecognised \<^verbatim>\<open>action\<close> gets the 400 and leaves the store as
  it is, whether or not the image exists; a 404 is raised only for a valid payload.
\<close>

theorem like_image_validates_first:
  "(LikeAction.user_hash act = [] \<or>
    (LikeAction.action act \<noteq> ''like'' \<and> LikeAction.action act \<noteq> ''unlike'')
    \<longrightarrow> like_image now iid act s = (Inl (HTTPException 400 ''Invalid payload''), s)) \<and>
   (fst (like_image now iid act s) = Inl (HTTPException 404 ''Image not found'')
    \<longrightarrow> LikeAction.user_hash act \<noteq> [] \<and>
        (LikeAction.action act = ''like'' \<or> LikeAction.action act = ''unlike''))"
  using like_image_invalid [of act now iid s] like_image_404 [of now iid act s]
  by blast

theorem like_image_validates_first_witness:
  "images init_store = [] \<and>
   like_image 0 7 \<lparr>LikeAction.user_hash = [], LikeAction.action = ''like''\<rparr> init_store
     = (Inl (HTTPException 400 ''Invalid payload''), init_store) \<and>
   like_image 0 7 \<lparr>LikeAction.user_hash = ''u1'', LikeAction.action = ''dislike''\<rparr> init_store
     = (Inl (HTTPException 400 ''Invalid payload''), init_store) \<and>
   fst (like_image 0 7 \<lparr>LikeAction.user_hash = ''u1'', LikeAction.action = ''like''\<rparr> init_store)
     = Inl (HTTPException 404 ''Image not found'')"
  using like_image_validates_first [of "\<lparr>LikeAction.user_hash = [], LikeAction.action = ''like''\<rparr>" 0 7 init_store]
    like_image_validates_first [of "\<lparr>LikeAction.user_hash = ''u1'', LikeAction.action = ''dislike''\<rparr>" 0 7 init_store]
    like_image_validates_first [of "\<lparr>LikeAction.user_hash = ''u1'', LikeAction.action = ''like''\<rparr>" 0 7 init_store]
  by (simp add: like_image_def get_image_def int64_def init_store_def)


section \<open>Liking and unliking\<close>

lemma delete_like_noop:
  "pair_rows (likes s) iid u = 0 \<Longrightarrow> delete_like iid u s = s"
proof -
  assume "pair_rows (likes s) iid u = 0"
  then have "\<forall>l \<in> set (likes s). \<not> (Like.image_id l = iid \<and> Like.user_hash l = u)"
    by (simp add: pair_rows_0)
  then have "filter (\<lambda>l. \<not> (Like.image_id l = iid \<and> Like.user_hash l = u)) (likes s) = likes s"
    by (simp add: filter_id_conv)
  then show ?thesis by (simp add: delete_like_def)
qed

lemma pair_rows_delete: "pair_rows (likes (delete_like iid u s)) iid u = 0"
  by (simp add: pair_rows_0 delete_like_def)

lemma reachable_two_images: "reachable two_images"
  unfolding two_images_def example_upload_def
  by (intro reachable.intros)

lemma reachable_example_store: "reachable example_store"
  unfolding example_store_def example_like_def
  by (intro reachable.like reachable_two_images)

text \<open>
  Claim C1. A valid \<^verbatim>\<open>like\<close> of an existing image, made twice for the same pair from a
  store that satisfies the uniqueness constraint; the id is a signed 64-bit integer, as
  every key of the store is. The first call returns a result; the
  second call returns the same result, with \<^verbatim>\<open>liked_by_user\<close> true and the same
  \<^verbatim>\<open>likes_count\<close>, raises nothing and leaves the store of the first call as it is; the
  count is the number of Like rows of the image, and the pair has exactly one Like row.
\<close>

theorem like_twice_idempotent:
  assumes "LikeAction.user_hash act \<noteq> []" and "LikeAction.action act = ''like''"
    and "iid \<in> Image.id ` set (images s)" and "uix_image_user (likes s)"
    and "int64 iid"
  shows "\<exists>r. fst (like_image now1 iid act s) = Inr r \<and>
             like_image now2 iid act (snd (like_image now1 iid act s))
               = (Inr r, snd (like_image now1 iid act s)) \<and>
             LikeResult.liked_by_user r \<and>
             LikeResult.likes_count r
               = int (length (filter (\<lambda>l. Like.image_id l = iid)
                                (likes (snd (like_image now1 iid act s))))) \<and>
             pair_rows (likes (snd (like_image now1 iid act s))) iid (LikeAction.user_hash act) = 1"
proof -
  define s1 where "s1 = snd (like_image now1 iid act s)"
  define r where "r = \<lparr>LikeResult.image_id = iid,
                        LikeResult.likes_count = count_likes (likes s1) iid,
                        LikeResult.liked_by_user = True\<rparr>"
  have first: "like_image now1 iid act s = (Inr r, s1)"
    using like_image_like [OF assms(1,2,3,5), of now1]
    by (simp add: s1_def r_def Let_def)
  have ex: "\<exists>l \<in> set (likes s1). Like.image_id l = iid \<and> Like.user_hash l = LikeAction.user_hash act"
    using like_image_like [OF assms(1,2,3,5), of now1]
    by (auto simp: s1_def Let_def)
  have img: "iid \<in> Image.id ` set (images s1)"
    using assms(3) by (simp add: s1_def like_image_images)
  have second: "like_image now2 iid act s1 = (Inr r, s1)"
    using like_image_like [OF assms(1,2) img assms(5), of now2] ex
    by (simp add: r_def Let_def)
  have "uix_image_user (likes s1)"
    unfolding s1_def by (rule like_image_uix [OF assms(4)])
  then have "pair_rows (likes s1) iid (LikeAction.user_hash act) \<le> 1"
    by (rule uix_pair_rows_le)
  moreover have "pair_rows (likes s1) iid (LikeAction.user_hash act) \<noteq> 0"
    using ex by (simp add: pair_rows_0)
  ultimately have one: "pair_rows (likes s1) iid (LikeAction.user_hash act) = 1"
    by simp
  show ?thesis
    using first second one unfolding s1_def [symmetric]
    by (simp add: r_def count_likes_def)
qed

theorem like_twice_idempotent_witness:
  "uix_image_user (likes two_images) \<and> 1 \<in> Image.id ` set (images two_images) \<and>
   int64 1 \<and>
   (\<exists>r. fst (example_like (day 10) 1 ''u1'' two_images) = Inr r \<and>
        example_like (day 11) 1 ''u1'' (snd (example_like (day 10) 1 ''u1'' two_images))
          = (Inr r, snd (example_like (day 10) 1 ''u1'' two_images)) \<and>
        LikeResult.liked_by_user r \<and>
        LikeResult.likes_count r
          = int (length (filter (\<lambda>l. Like.image_id l = 1)
                           (likes (snd (example_like (day 10) 1 ''u1'' two_images))))) \<and>
        pair_rows (likes (snd (example_like (day 10) 1 ''u1'' two_images))) 1 ''u1'' = 1)"
proof -
  have u: "uix_image_user (likes two_images)"
    by (simp add: two_images_eq uix_image_user_def)
  have i: "1 \<in> Image.id ` set (images two_images)"
    by (simp add: two_images_eq)
  have a: "LikeAction.user_hash \<lparr>LikeAction.user_hash = ''u1'', LikeAction.action = ''like''\<rparr> \<noteq> []"
    by simp
  have b: "LikeAction.action \<lparr>LikeAction.user_hash = ''u1'', LikeAction.action = ''like''\<rparr> = ''like''"
    by simp
  have r: "int64 1"
    by (simp add: int64_def)
  show ?thesis
    using like_twice_idempotent [OF a b i u r, of "day 10" "day 11"] u i r
    unfolding example_like_def by simp
qed

text \<open>
  Claim C3. A valid call for an existing image, whose id is a signed 64-bit integer as
  every key of the store is, returns a result whose \<^verbatim>\<open>likes_count\<close>
  is the number of Like rows of the image in the store the call leaves, and whose
  \<^verbatim>\<open>liked_by_user\<close> is true for \<^verbatim>\<open>like\<close> and false for \<^verbatim>\<open>unlike\<close>, as is the presence of
  a row of the pair in that store. An \<^verbatim>\<open>unlike\<close> of a pair without a row leaves the
  store unchanged and returns false and the count of the store before.
\<close>

theorem like_image_recounts:
  assumes "LikeAction.user_hash act \<noteq> []"
    and "LikeAction.action act = ''like'' \<or> LikeAction.action act = ''unlike''"
    and "iid \<in> Image.id ` set (images s)" and "int64 iid"
  shows "\<exists>r. fst (like_image now iid act s) = Inr r \<and>
             LikeResult.image_id r = iid \<and>
             LikeResult.likes_count r
               = int (length (filter (\<lambda>l. Like.image_id l = iid)
                                (likes (snd (like_image now iid act s))))) \<and>
             LikeResult.liked_by_user r = (LikeAction.action act = ''like'') \<and>
             (0 < pair_rows (likes (snd (like_image now iid act s))) iid (LikeAction.user_hash act))
               = (LikeAction.action act = ''like'') \<and>
             (LikeAction.action act = ''unlike'' \<and>
              pair_rows (likes s) iid (LikeAction.user_hash act) = 0 \<longrightarrow>
                snd (like_image now iid act s) = s \<and>
                \<not> LikeResult.liked_by_user r \<and>
                LikeResult.likes_count r
                  = int (length (filter (\<lambda>l. Like.image_id l = iid) (likes s))))"
proof (cases "LikeAction.action act = ''like''")
  case True
  define s' where "s' = snd (like_image now iid act s)"
  have eq: "like_image now iid act s =
      (Inr \<lparr>LikeResult.image_id = iid, LikeResult.likes_count = count_likes (likes s') iid,
            LikeResult.liked_by_user = True\<rparr>, s')"
    using like_image_like [OF assms(1) True assms(3,4), of now]
    by (simp add: s'_def Let_def)
  have "\<exists>l \<in> set (likes s'). Like.image_id l = iid \<and> Like.user_hash l = LikeAction.user_hash act"
    using like_image_like [OF assms(1) True assms(3,4), of now]
    by (auto simp: s'_def Let_def)
  then have "pair_rows (likes s') iid (LikeAction.user_hash act) \<noteq> 0"
    by (simp add: pair_rows_0)
  then have pos: "0 < pair_rows (likes s') iid (LikeAction.user_hash act)"
    by simp
  show ?thesis
    unfolding s'_def [symmetric] using eq pos True
    by (simp add: count_likes_def)
next
  case False
  then have un: "LikeAction.action act = ''unlike''" using assms(2) by simp
  define s' where "s' = delete_like iid (LikeAction.user_hash act) s"
  have eq: "like_image now iid act s =
      (Inr \<lparr>LikeResult.image_id = iid, LikeResult.likes_count = count_likes (likes s') iid,
            LikeResult.liked_by_user = False\<rparr>, s')"
    using like_image_unlike [OF assms(1) un assms(3,4), of now]
    by (simp add: s'_def Let_def)
  have zero: "pair_rows (likes s') iid (LikeAction.user_hash act) = 0"
    unfolding s'_def by (rule pair_rows_delete)
  have noop: "pair_rows (likes s) iid (LikeAction.user_hash act) = 0 \<Longrightarrow> s' = s"
    unfolding s'_def by (rule delete_like_noop)
  show ?thesis
    using eq zero noop False
    by (auto simp: count_likes_def)
qed

theorem like_image_recounts_witness:
  "1 \<in> Image.id ` set (images example_store) \<and> int64 1 \<and>
   pair_rows (likes example_store) 1 ''u7'' = 0 \<and>
   (\<exists>r. fst (example_unlike (day 20) 1 ''u7'' example_store) = Inr r \<and>
        LikeResult.likes_count r = 2 \<and> \<not> LikeResult.liked_by_user r \<and>
        snd (example_unlike (day 20) 1 ''u7'' example_store) = example_store)"
proof -
  have i: "1 \<in> Image.id ` set (images example_store)"
    by (simp add: example_store_images two_images_eq)
  have p: "pair_rows (likes example_store) 1 ''u7'' = 0"
    by (simp add: example_store_likes pair_rows_def)
  have a: "LikeAction.user_hash \<lparr>LikeAction.user_hash = ''u7'', LikeAction.action = ''unlike''\<rparr> \<noteq> []"
    by simp
  have b: "LikeAction.action \<lparr>LikeAction.user_hash = ''u7'', LikeAction.action = ''unlike''\<rparr> = ''like'' \<or>
           LikeAction.action \<lparr>LikeAction.user_hash = ''u7'', LikeAction.action = ''unlike''\<rparr> = ''unlike''"
    by simp
  have c: "int (length (filter (\<lambda>l. Like.image_id l = 1) (likes example_store))) = 2"
    by (simp add: example_store_likes)
  have r: "int64 1"
    by (simp add: int64_def)
  show ?thesis
    using like_image_recounts [OF a b i r, of "day 20"] i p c r
    unfolding example_unlike_def by auto
qed

text \<open>
  Claim C4. Every reachable store has at most one Like row for each
  \<^verbatim>\<open>(image_id, user_hash)\<close> pair, and \<^verbatim>\<open>like_image\<close> and \<^verbatim>\<open>upload_image\<close> keep the
  constraint, whatever their arguments.
\<close>

theorem unique_like_invariant:
  "(reachable s \<longrightarrow> uix_image_user (likes s) \<and> pair_rows (likes s) iid uhash \<le> 1) \<and>
   (uix_image_user (likes s) \<longrightarrow>
      uix_image_user (likes (snd (like_image now iid' act s))) \<and>
      uix_image_user (likes (snd (upload_image path_name path_suffix uuid_hex now' base_url
                                    authorName imageName upload s))))"
  using reachable_uix [of s] uix_pair_rows_le [of "likes s" iid uhash]
    like_image_uix [of s now iid' act]
  by (simp add: upload_image_likes)

theorem unique_like_invariant_witness:
  "reachable example_store \<and> uix_image_user (likes example_store) \<and>
   pair_rows (likes example_store) 1 ''u1'' \<le> 1 \<and>
   uix_image_user (likes (snd (example_like (day 20) 1 ''u1'' example_store))) \<and>
   uix_image_user (likes (snd (example_unlike (day 20) 1 ''u1'' example_store))) \<and>
   uix_image_user (likes (snd (example_upload ''cc'' (day 20) example_store)))"
  using reachable_example_store
    unique_like_invariant [of example_store 1 "''u1''" "day 20" 1
      "\<lparr>LikeAction.user_hash = ''u1'', LikeAction.action = ''like''\<rparr>"
      "\<lambda>p. p" "\<lambda>p. ''.jpg''" "''cc''" "day 20" "''http://host/''" None "Some ''Cat''" example_file]
    unique_like_invariant [of example_store 1 "''u1''" "day 20" 1
      "\<lparr>LikeAction.user_hash = ''u1'', LikeAction.action = ''unlike''\<rparr>"
      "\<lambda>p. p" "\<lambda>p. ''.jpg''" "''cc''" "day 20" "''http://host/''" None "Some ''Cat''" example_file]
  unfolding example_like_def example_unlike_def example_upload_def by simp



section \<open>Listing\<close>

lemma mset_order_by_desc: "mset (order_by_desc key rows) = mset rows"
  by (simp add: order_by_desc_def)

lemma set_order_by_desc: "set (order_by_desc key rows) = set rows"
  by (simp add: order_by_desc_def)

lemma sorted_order_by_desc:
  "sorted_wrt (\<lambda>a b. key b \<le> key a) (order_by_desc key rows)"
proof -
  have "sorted (map (\<lambda>r. - key r) (sort_key (\<lambda>r. - key r) rows))"
    by (rule sorted_sort_key)
  then show ?thesis
    by (simp add: order_by_desc_def sorted_map)
qed

lemma order_by_desc_ranks:
  assumes "a \<in> set rows" and "b \<in> set rows" and "key a < key b"
  shows "\<exists>i j. i < j \<and> j < length (order_by_desc key rows) \<and>
               order_by_desc key rows ! i = b \<and> order_by_desc key rows ! j = a"
proof -
  let ?xs = "order_by_desc key rows"
  obtain j where j: "j < length ?xs" "?xs ! j = a"
    using assms(1) by (metis in_set_conv_nth set_order_by_desc)
  obtain i where i: "i < length ?xs" "?xs ! i = b"
    using assms(2) by (metis in_set_conv_nth set_order_by_desc)
  have "\<not> j < i"
  proof
    assume "j < i"
    then have "key (?xs ! i) \<le> key (?xs ! j)"
      using sorted_order_by_desc [of key rows] i(1) by (simp add: sorted_wrt_iff_nth_less)
    then show False using assms(3) i(2) j(2) by simp
  qed
  moreover have "i \<noteq> j" using assms(3) i(2) j(2) by auto
  ultimately have "i < j" by simp
  then show ?thesis using i j by blast
qed

lemma select_rows:
  "(if srt = ''recent'' then db_execute k l (recent_stmt s)
    else if srt = ''popular'' then db_execute k l (popular_stmt s)
    else if srt = ''trending'' then db_execute k l (trending_stmt now s)
    else db_execute k l (recent_stmt s)) =
   db_execute k l
     (if srt = ''popular'' then popular_stmt s
      else if srt = ''trending'' then trending_stmt now s
      else recent_stmt s)"
  by simp

lemma window_in_range:
  "(int64 ((max 1 page - 1) * max 1 (min 100 limit)) \<and> int64 (max 1 (min 100 limit))) =
   ((max 1 page - 1) * max 1 (min 100 limit) < 2 ^ 63)"
proof -
  define k where "k = (max 1 page - 1) * max 1 (min 100 limit)"
  define l where "l = max 1 (min 100 limit)"
  have "0 \<le> k"
    unfolding k_def by (intro mult_nonneg_nonneg) simp_all
  moreover have "1 \<le> l" "l \<le> 100"
    by (simp_all add: l_def)
  ultimately have "(int64 k \<and> int64 l) = (k < 2 ^ 63)"
    unfolding int64_def by auto
  then show ?thesis
    unfolding k_def l_def .
qed

lemma db_execute_window:
  "db_execute ((max 1 page - 1) * max 1 (min 100 limit)) (max 1 (min 100 limit)) rows =
     (if (max 1 page - 1) * max 1 (min 100 limit) < 2 ^ 63
      then Inr (offset_limit ((max 1 page - 1) * max 1 (min 100 limit))
                  (max 1 (min 100 limit)) rows)
      else Inl OverflowError)"
  unfolding db_execute_def window_in_range by (rule refl)

lemma case_if_sum:
  "(case (if c then Inr x else Inl e) of Inl e' \<Rightarrow> Inl e' | Inr r \<Rightarrow> Inr (f r)) =
   (if c then Inr (f x) else Inl e)"
  by simp

lemma list_images_rows:
  "list_images base_url now page limit srt uhash s =
     (if (max 1 page - 1) * max 1 (min 100 limit) < 2 ^ 63
      then Inr
        (let imgs = offset_limit ((max 1 page - 1) * max 1 (min 100 limit))
                      (max 1 (min 100 limit))
                      (if srt = ''popular'' then popular_stmt s
                       else if srt = ''trending'' then trending_stmt now s
                       else recent_stmt s)
         in map (image_out (rstrip_slash base_url)
                   (get_total_likes_for_ids s (map Image.id imgs))
                   (case uhash of None \<Rightarrow> {}
                    | Some u \<Rightarrow> if u = [] then {}
                               else get_liked_ids_by_user s (map Image.id imgs) u)) imgs)
      else Inl OverflowError)"
  unfolding list_images_def clamp_pagination_def Let_def prod.case select_rows
    db_execute_window case_if_sum
  by (rule refl)

lemma list_images_overflow:
  "\<not> (max 1 page - 1) * max 1 (min 100 limit) < 2 ^ 63 \<Longrightarrow>
   list_images base_url now page limit srt uhash s = Inl OverflowError"
  by (simp add: list_images_rows)

lemma image_out_id: "ImageOut.id (image_out base m liked img) = Image.id img"
  by (simp add: image_out_def Let_def)

lemma list_images_ids:
  "map_sum (\<lambda>e. e) (map ImageOut.id) (list_images base_url now page limit srt uhash s) =
   (if (max 1 page - 1) * max 1 (min 100 limit) < 2 ^ 63
    then Inr (map Image.id
           (offset_limit ((max 1 page - 1) * max 1 (min 100 limit)) (max 1 (min 100 limit))
              (if srt = ''popular'' then popular_stmt s
               else if srt = ''trending'' then trending_stmt now s
               else recent_stmt s)))
    else Inl OverflowError)"
  unfolding list_images_rows Let_def
  by (simp add: image_out_id comp_def)

lemma image_out_likes_count:
  assumes "img \<in> set imgs"
  shows "ImageOut.likes_count
           (image_out base (get_total_likes_for_ids s (map Image.id imgs)) liked img)
         = count_likes (likes s) (Image.id img)"
proof -
  have ne: "map Image.id imgs \<noteq> []" using assms by auto
  have mem: "Image.id img \<in> set (map Image.id imgs)" using assms by simp
  show ?thesis
  proof (cases "\<exists>l \<in> set (likes s). Like.image_id l = Image.id img")
    case True
    then show ?thesis using ne mem
      by (simp add: image_out_def get_total_likes_for_ids_def Let_def)
  next
    case False
    then have "filter (\<lambda>l. Like.image_id l = Image.id img) (likes s) = []"
      by (simp add: filter_empty_conv)
    then have "count_likes (likes s) (Image.id img) = 0"
      by (simp add: count_likes_def)
    then show ?thesis using ne mem False
      by (simp add: image_out_def get_total_likes_for_ids_def Let_def)
  qed
qed

lemma list_images_likes_count:
  assumes "list_images base_url now page limit srt uhash s = Inr vs" and "v \<in> set vs"
  shows "ImageOut.likes_count v = count_likes (likes s) (ImageOut.id v)"
proof -
  obtain imgs liked where
    eq: "vs = map (image_out (rstrip_slash base_url)
                (get_total_likes_for_ids s (map Image.id imgs)) liked) imgs"
    using assms(1) unfolding list_images_rows Let_def
    by (auto split: if_splits)
  then obtain img where "img \<in> set imgs"
    and "v = image_out (rstrip_slash base_url)
               (get_total_likes_for_ids s (map Image.id imgs)) liked img"
    using assms(2) by auto
  then show ?thesis
    by (simp add: image_out_likes_count image_out_id)
qed

lemma nth_window: "i < length xs \<Longrightarrow> offset_limit (int i) 1 xs = [xs ! i]"
  by (simp add: offset_limit_def take_Suc_conv_app_nth Cons_nth_drop_Suc [symmetric])

lemma listed_on_some_page:
  assumes "img \<in> set rows" and "length rows \<le> 2 ^ 63"
  shows "\<exists>page. 1 \<le> page \<and> (max 1 page - 1) * max 1 (min 100 1) < 2 ^ 63 \<and>
           offset_limit ((max 1 page - 1) * max 1 (min 100 1)) (max 1 (min 100 1)) rows = [img]"
proof -
  obtain i where i: "i < length rows" "rows ! i = img"
    using assms(1) by (metis in_set_conv_nth)
  have "i < 2 ^ 63"
    using i(1) assms(2) by simp
  then have "int i < int (2 ^ 63)"
    by (simp only: of_nat_less_iff)
  then have r: "int i < 2 ^ 63"
    by simp
  have "offset_limit ((max 1 (int i + 1) - 1) * max 1 (min 100 1)) (max 1 (min 100 1)) rows = [img]"
    using nth_window [OF i(1)] i(2) by simp
  then show ?thesis
    using r by (intro exI [of _ "int i + 1"]) simp
qed

lemma list_images_single:
  assumes "(max 1 page - 1) * max 1 (min 100 limit) < 2 ^ 63"
    and "offset_limit ((max 1 page - 1) * max 1 (min 100 limit)) (max 1 (min 100 limit))
             (if srt = ''popular'' then popular_stmt s
              else if srt = ''trending'' then trending_stmt now s
              else recent_stmt s) = [img]"
  shows "\<exists>v. list_images base_url now page limit srt uhash s = Inr [v] \<and>
             ImageOut.id v = Image.id img \<and>
             ImageOut.stored_filename v = Image.stored_filename img \<and>
             ImageOut.likes_count v = count_likes (likes s) (Image.id img)"
proof -
  define liked where "liked = (case uhash of None \<Rightarrow> {}
          | Some u \<Rightarrow> if u = [] then {} else get_liked_ids_by_user s (map Image.id [img]) u)"
  define v where "v = image_out (rstrip_slash base_url)
                        (get_total_likes_for_ids s (map Image.id [img])) liked img"
  have "list_images base_url now page limit srt uhash s = Inr [v]"
    unfolding list_images_rows assms(2) Let_def v_def liked_def using assms(1) by simp
  moreover have "ImageOut.likes_count v = count_likes (likes s) (Image.id img)"
    unfolding v_def by (rule image_out_likes_count) simp
  moreover have "ImageOut.id v = Image.id img"
    and "ImageOut.stored_filename v = Image.stored_filename img"
    by (simp_all add: v_def image_out_def Let_def)
  ultimately show ?thesis by blast
qed

lemma upload_image_some:
  "upload_image path_name path_suffix uuid_hex now base_url authorName imageName f s =
     (let original = (case UploadFile.filename f of
                        None \<Rightarrow> ''upload''
                      | Some n \<Rightarrow> if n = [] then ''upload'' else n);
          ext = (if path_suffix original = [] then ''.png'' else path_suffix original);
          s1 = s\<lparr>files := (files s)(''data/images/'' @ uuid_hex @ ext
                                  := Some (UploadFile.contents f))\<rparr>;
          img = \<lparr>Image.id = next_id (map Image.id (images s)),
                 Image.author_name = authorName,
                 Image.image_name = imageName,
                 Image.original_filename = path_name original,
                 Image.stored_filename = uuid_hex @ ext,
                 Image.content_type = UploadFile.content_type f,
                 Image.size = Some (int (length (UploadFile.contents f))),
                 Image.created_at = now\<rparr>
      in if \<exists>i \<in> set (images s). Image.stored_filename i = uuid_hex @ ext
         then (Inl IntegrityError, s1)
         else (Inr \<lparr>ImageOut.id = Image.id img,
                    ImageOut.author_name = authorName,
                    ImageOut.image_name = imageName,
                    ImageOut.original_filename = path_name original,
                    ImageOut.stored_filename = uuid_hex @ ext,
                    ImageOut.content_type = UploadFile.content_type f,
                    ImageOut.size = Some (int (length (UploadFile.contents f))),
                    ImageOut.created_at = now,
                    ImageOut.likes_count = 0,
                    ImageOut.liked_by_user = False,
                    ImageOut.image_url = rstrip_slash base_url @ ''/images/'' @ uuid_hex @ ext\<rparr>,
               s1\<lparr>images := images s @ [img]\<rparr>))"
  unfolding upload_image_def create_image_record_def Let_def
  by simp

text \<open>
  The key \<^verbatim>\<open>Image.id\<close> is unique in every reachable store, so grouping the joined rows
  by it gives one row for each image.
\<close>

lemma fold_max_ge: "(a::int) \<le> fold max ids a"
  by (induction ids arbitrary: a) (auto intro: order_trans [OF max.cobounded2])

lemma fold_max_mem: "x \<in> set ids \<Longrightarrow> (x::int) \<le> fold max ids a"
proof (induction ids arbitrary: a)
  case Nil
  then show ?case by simp
next
  case (Cons y ids)
  show ?case
  proof (cases "x = y")
    case True
    have "y \<le> max y a" by simp
    also have "\<dots> \<le> fold max ids (max y a)" by (rule fold_max_ge)
    finally show ?thesis using True by simp
  next
    case False
    then show ?thesis using Cons by simp
  qed
qed

lemma next_id_fresh: "next_id ids \<notin> set ids"
proof
  assume "next_id ids \<in> set ids"
  then have "next_id ids \<le> fold max ids 0" by (rule fold_max_mem)
  then show False by (simp add: next_id_def)
qed

lemma upload_image_pk:
  assumes "distinct (map Image.id (images s))"
  shows "distinct (map Image.id (images (snd (upload_image path_name path_suffix uuid_hex now
            base_url authorName imageName upload s))))"
  using assms next_id_fresh [of "map Image.id (images s)"]
  unfolding upload_image_some Let_def by simp

lemma reachable_pk: "reachable s \<Longrightarrow> distinct (map Image.id (images s))"
proof (induction rule: reachable.induct)
  case init
  show ?case by (simp add: init_store_def)
next
  case (upload s path_name path_suffix uuid_hex now base_url authorName imageName upload)
  show ?case by (rule upload_image_pk [OF upload.IH])
next
  case (like s now iid act)
  then show ?case by (simp add: like_image_images)
qed

lemma image_A_eq:
  "image_A = \<lparr>Image.id = 1, Image.author_name = None, Image.image_name = Some ''Cat'',
          Image.original_filename = ''cat.jpg'', Image.stored_filename = ''aa.jpg'',
          Image.content_type = Some ''image/jpeg'', Image.size = Some 2,
          Image.created_at = 86400000000\<rparr>"
  by (simp add: image_A_def two_images_eq)

lemma image_B_eq:
  "image_B = \<lparr>Image.id = 2, Image.author_name = None, Image.image_name = Some ''Cat'',
          Image.original_filename = ''cat.jpg'', Image.stored_filename = ''bb.jpg'',
          Image.content_type = Some ''image/jpeg'', Image.size = Some 2,
          Image.created_at = 172800000000\<rparr>"
  by (simp add: image_B_def two_images_eq)

lemma example_images: "images example_store = [image_A, image_B]"
  by (simp add: example_store_images two_images_eq image_A_eq image_B_eq)

lemma three_images_likes: "likes three_images = likes example_store"
  by (simp add: three_images_def example_upload_def upload_image_likes)

lemma three_images_images:
  "images three_images = [image_A, image_B,
     \<lparr>Image.id = 3, Image.author_name = None, Image.image_name = Some ''Cat'',
      Image.original_filename = ''cat.jpg'', Image.stored_filename = ''cc.jpg'',
      Image.content_type = Some ''image/jpeg'', Image.size = Some 2,
      Image.created_at = 1296000000000\<rparr>]"
  unfolding three_images_def example_upload_def upload_image_some Let_def
  by (simp add: example_images image_A_eq image_B_eq example_file_def next_id_def
      day_def timedelta_days_def)

lemma image_C_eq:
  "image_C = \<lparr>Image.id = 3, Image.author_name = None, Image.image_name = Some ''Cat'',
      Image.original_filename = ''cat.jpg'', Image.stored_filename = ''cc.jpg'',
      Image.content_type = Some ''image/jpeg'', Image.size = Some 2,
      Image.created_at = 1296000000000\<rparr>"
  by (simp add: image_C_def three_images_images)

lemma example_recent: "recent_stmt example_store = [image_B, image_A]"
  by (simp add: recent_stmt_def order_by_desc_def example_images image_A_eq image_B_eq)

lemma example_counts:
  "count_likes (likes example_store) (Image.id image_A) = 2"
  "count_likes (likes example_store) (Image.id image_B) = 1"
  "count_likes (likes example_store) (Image.id image_C) = 0"
  by (simp_all add: count_likes_def example_store_likes image_A_eq image_B_eq image_C_eq)

lemma example_week:
  "likes_week_subq (likes example_store) (day 20 - timedelta_days 7) image_A = 0"
  "likes_week_subq (likes example_store) (day 20 - timedelta_days 7) image_B = 1"
  "likes_week_subq (likes example_store) (day 20 - timedelta_days 7) image_C = 0"
  by (simp_all add: likes_week_subq_def example_store_likes image_A_eq image_B_eq image_C_eq
      day_def timedelta_days_def)

lemma example_popular: "popular_stmt example_store = [image_A, image_B]"
  by (simp add: popular_stmt_def order_by_desc_def example_images example_counts)

lemma example_trending: "trending_stmt (day 20) example_store = [image_B, image_A]"
  by (simp add: trending_stmt_def order_by_desc_def example_images example_week Let_def)


text \<open>
  Claim C5. The \<^verbatim>\<open>trending\<close> statement returns every image of the table, ordered by
  descending count of the image's Like rows created at or after \<open>now\<close> minus seven days;
  the page is the window of that order, wherever the offset is one the store takes. So
  an image with fewer likes in the window comes after one with more, and under
  \<^verbatim>\<open>popular\<close> an image with more Like rows in total comes before one with fewer. In the
  example on day 20, A has two likes of ten days ago and B one like of yesterday:
  \<^verbatim>\<open>trending\<close> lists B then A, \<^verbatim>\<open>popular\<close> lists A then B.
\<close>

theorem trending_order:
  "mset (trending_stmt now s) = mset (images s) \<and>
   sorted_wrt (\<lambda>a b. likes_week_subq (likes s) (now - timedelta_days 7) b
                       \<le> likes_week_subq (likes s) (now - timedelta_days 7) a)
     (trending_stmt now s) \<and>
   likes_week_subq (likes s) (now - timedelta_days 7) a =
     int (length (filter (\<lambda>l. Like.image_id l = Image.id a \<and>
                               now - 7 * 86400000000 \<le> Like.created_at l) (likes s))) \<and>
   map_sum (\<lambda>e. e) (map ImageOut.id)
       (list_images base_url now page limit ''trending'' uhash s) =
     (if (max 1 page - 1) * max 1 (min 100 limit) < 2 ^ 63
      then Inr (map Image.id (offset_limit ((max 1 page - 1) * max 1 (min 100 limit))
                                (max 1 (min 100 limit)) (trending_stmt now s)))
      else Inl OverflowError) \<and>
   map_sum (\<lambda>e. e) (map ImageOut.id)
       (list_images base_url now page limit ''popular'' uhash s) =
     (if (max 1 page - 1) * max 1 (min 100 limit) < 2 ^ 63
      then Inr (map Image.id (offset_limit ((max 1 page - 1) * max 1 (min 100 limit))
                                (max 1 (min 100 limit)) (popular_stmt s)))
      else Inl OverflowError) \<and>
   (a \<in> set (images s) \<and> b \<in> set (images s) \<and>
    likes_week_subq (likes s) (now - timedelta_days 7) a
      < likes_week_subq (likes s) (now - timedelta_days 7) b \<longrightarrow>
      (\<exists>i j. i < j \<and> j < length (trending_stmt now s) \<and>
             trending_stmt now s ! i = b \<and> trending_stmt now s ! j = a)) \<and>
   (a \<in> set (images s) \<and> b \<in> set (images s) \<and>
    count_likes (likes s) (Image.id b) < count_likes (likes s) (Image.id a) \<longrightarrow>
      (\<exists>i j. i < j \<and> j < length (popular_stmt s) \<and>
             popular_stmt s ! i = a \<and> popular_stmt s ! j = b))"
proof (intro conjI impI)
  show "mset (trending_stmt now s) = mset (images s)"
    by (simp add: trending_stmt_def Let_def mset_order_by_desc)
  show "sorted_wrt (\<lambda>a b. likes_week_subq (likes s) (now - timedelta_days 7) b
                       \<le> likes_week_subq (likes s) (now - timedelta_days 7) a)
     (trending_stmt now s)"
    unfolding trending_stmt_def Let_def by (rule sorted_order_by_desc)
  show "likes_week_subq (likes s) (now - timedelta_days 7) a =
     int (length (filter (\<lambda>l. Like.image_id l = Image.id a \<and>
                               now - 7 * 86400000000 \<le> Like.created_at l) (likes s)))"
    by (simp add: likes_week_subq_def timedelta_days_def)
  show "map_sum (\<lambda>e. e) (map ImageOut.id)
       (list_images base_url now page limit ''trending'' uhash s) =
     (if (max 1 page - 1) * max 1 (min 100 limit) < 2 ^ 63
      then Inr (map Image.id (offset_limit ((max 1 page - 1) * max 1 (min 100 limit))
                                (max 1 (min 100 limit)) (trending_stmt now s)))
      else Inl OverflowError)"
    unfolding list_images_ids by simp
  show "map_sum (\<lambda>e. e) (map ImageOut.id)
       (list_images base_url now page limit ''popular'' uhash s) =
     (if (max 1 page - 1) * max 1 (min 100 limit) < 2 ^ 63
      then Inr (map Image.id (offset_limit ((max 1 page - 1) * max 1 (min 100 limit))
                                (max 1 (min 100 limit)) (popular_stmt s)))
      else Inl OverflowError)"
    unfolding list_images_ids by simp
next
  assume h: "a \<in> set (images s) \<and> b \<in> set (images s) \<and>
    likes_week_subq (likes s) (now - timedelta_days 7) a
      < likes_week_subq (likes s) (now - timedelta_days 7) b"
  show "\<exists>i j. i < j \<and> j < length (trending_stmt now s) \<and>
             trending_stmt now s ! i = b \<and> trending_stmt now s ! j = a"
    unfolding trending_stmt_def Let_def
    using h by (intro order_by_desc_ranks) simp_all
next
  assume h: "a \<in> set (images s) \<and> b \<in> set (images s) \<and>
    count_likes (likes s) (Image.id b) < count_likes (likes s) (Image.id a)"
  show "\<exists>i j. i < j \<and> j < length (popular_stmt s) \<and>
             popular_stmt s ! i = a \<and> popular_stmt s ! j = b"
    unfolding popular_stmt_def
    using h by (intro order_by_desc_ranks) simp_all
qed

theorem trending_order_witness:
  "image_A \<in> set (images example_store) \<and> image_B \<in> set (images example_store) \<and>
   count_likes (likes example_store) (Image.id image_A) = 2 \<and>
   count_likes (likes example_store) (Image.id image_B) = 1 \<and>
   likes_week_subq (likes example_store) (day 20 - timedelta_days 7) image_A = 0 \<and>
   likes_week_subq (likes example_store) (day 20 - timedelta_days 7) image_B = 1 \<and>
   (\<exists>i j. i < j \<and> j < length (trending_stmt (day 20) example_store) \<and>
          trending_stmt (day 20) example_store ! i = image_B \<and>
          trending_stmt (day 20) example_store ! j = image_A) \<and>
   (\<exists>i j. i < j \<and> j < length (popular_stmt example_store) \<and>
          popular_stmt example_store ! i = image_A \<and>
          popular_stmt example_store ! j = image_B) \<and>
   map_sum (\<lambda>e. e) (map ImageOut.id)
     (list_images ''http://host/'' (day 20) 1 20 ''trending'' None example_store)
     = Inr [2, 1] \<and>
   map_sum (\<lambda>e. e) (map ImageOut.id)
     (list_images ''http://host/'' (day 20) 1 20 ''popular'' None example_store)
     = Inr [1, 2]"
proof -
  have m: "image_A \<in> set (images example_store)" "image_B \<in> set (images example_store)"
    by (simp_all add: example_images)
  have t: "map Image.id (offset_limit ((max 1 1 - 1) * max 1 (min 100 20)) (max 1 (min 100 20))
                          (trending_stmt (day 20) example_store)) = [2, 1]"
    by (simp add: example_trending offset_limit_def image_A_eq image_B_eq)
  have p: "map Image.id (offset_limit ((max 1 1 - 1) * max 1 (min 100 20)) (max 1 (min 100 20))
                          (popular_stmt example_store)) = [1, 2]"
    by (simp add: example_popular offset_limit_def image_A_eq image_B_eq)
  have r: "(max 1 1 - 1) * max 1 (min 100 20) < (2::int) ^ 63"
    by simp
  show ?thesis
    using trending_order [where now = "day 20" and s = example_store and a = image_A
        and b = image_B and base_url = "''http://host/''" and page = 1 and limit = 20
        and uhash = None] m example_counts(1,2) example_week(1,2)
    unfolding t p if_P [OF r]
    by simp
qed

text \<open>
  With page 10^18 and limit 100 the offset does not fit a signed 64-bit integer, and
  the listing raises \<^verbatim>\<open>OverflowError\<close>.
\<close>

theorem pagination_overflow_counterexample:
  "clamp_pagination 1000000000000000000 100 = (1000000000000000000, 100, 99999999999999999900) \<and>
   list_images ''http://host/'' (day 20) 1000000000000000000 100 ''recent'' None example_store
     = Inl OverflowError"
  by (simp add: list_images_rows clamp_pagination_def Let_def)

text \<open>
  Claim C6, as the code has it. For every integer \<open>page\<close> and \<open>limit\<close> the handler uses
  the page clamped to at least 1, the limit clamped into 1 to 100, and the offset
  (page - 1) * limit of the clamped values, and the listing is the one of the clamped
  parameters. When the offset is below 2^63 the handler returns: the ids of the list
  are the window of the ordered rows, and the list has at most limit entries.
\<close>

theorem pagination_clamped:
  "\<exists>p l k. clamp_pagination page limit = (p, l, k) \<and>
     p = (if page < 1 then 1 else page) \<and>
     l = (if limit < 1 then 1 else if 100 < limit then 100 else limit) \<and>
     k = (p - 1) * l \<and> 1 \<le> p \<and> 1 \<le> l \<and> l \<le> 100 \<and> 0 \<le> k \<and>
     list_images base_url now page limit srt uhash s = list_images base_url now p l srt uhash s \<and>
     (k < 2 ^ 63 \<longrightarrow>
        (\<exists>vs. list_images base_url now page limit srt uhash s = Inr vs \<and>
              map ImageOut.id vs =
                map Image.id (take (nat l) (drop (nat k)
                  (if srt = ''popular'' then popular_stmt s
                   else if srt = ''trending'' then trending_stmt now s
                   else recent_stmt s))) \<and>
              length vs \<le> nat l))"
proof -
  define p where "p = max 1 page"
  define l where "l = max 1 (min 100 limit)"
  define k where "k = (p - 1) * l"
  have c: "clamp_pagination page limit = (p, l, k)"
    by (simp add: clamp_pagination_def Let_def p_def l_def k_def)
  have pv: "p = (if page < 1 then 1 else page)"
    and lv: "l = (if limit < 1 then 1 else if 100 < limit then 100 else limit)"
    by (simp_all add: p_def l_def max_def min_def)
  have bounds: "1 \<le> p" "1 \<le> l" "l \<le> 100"
    by (simp_all add: p_def l_def)
  then have k0: "0 \<le> k"
    by (simp add: k_def)
  have pp: "max 1 p = p" and ll: "max 1 (min 100 l) = l"
    using bounds by simp_all
  have idem: "list_images base_url now page limit srt uhash s =
              list_images base_url now p l srt uhash s"
    unfolding list_images_rows pp ll
    unfolding p_def l_def by (rule refl)
  have ok: "\<exists>vs. list_images base_url now page limit srt uhash s = Inr vs \<and>
              map ImageOut.id vs =
                map Image.id (take (nat l) (drop (nat k)
                  (if srt = ''popular'' then popular_stmt s
                   else if srt = ''trending'' then trending_stmt now s
                   else recent_stmt s))) \<and>
              length vs \<le> nat l" if r: "k < 2 ^ 63"
  proof -
    have r': "(max 1 page - 1) * max 1 (min 100 limit) < 2 ^ 63"
      using r by (simp add: k_def p_def l_def)
    obtain vs where vs: "list_images base_url now page limit srt uhash s = Inr vs"
      unfolding list_images_rows if_P [OF r'] by blast
    have ids: "map ImageOut.id vs =
          map Image.id (take (nat l) (drop (nat k)
                  (if srt = ''popular'' then popular_stmt s
                   else if srt = ''trending'' then trending_stmt now s
                   else recent_stmt s)))"
      using list_images_ids [of base_url now page limit srt uhash s] r'
      by (simp add: vs offset_limit_def k_def p_def l_def)
    have "length vs = length (map ImageOut.id vs)"
      by simp
    also have "\<dots> \<le> nat l"
      unfolding ids by simp
    finally have "length vs \<le> nat l" .
    then show ?thesis using vs ids by blast
  qed
  show ?thesis
    using c pv lv bounds k0 idem ok k_def by blast
qed

theorem pagination_clamped_witness:
  "clamp_pagination 0 500 = (1, 100, 0) \<and> clamp_pagination (- 3) 0 = (1, 1, 0) \<and>
   clamp_pagination 3 20 = (3, 20, 40) \<and>
   list_images ''http://host/'' (day 20) 0 500 ''recent'' None example_store =
     list_images ''http://host/'' (day 20) 1 100 ''recent'' None example_store \<and>
   list_images ''http://host/'' (day 20) (- 3) 0 ''recent'' None example_store =
     list_images ''http://host/'' (day 20) 1 1 ''recent'' None example_store \<and>
   (\<exists>vs. list_images ''http://host/'' (day 20) 0 500 ''recent'' None example_store = Inr vs \<and>
         map ImageOut.id vs = [2, 1]) \<and>
   (\<exists>vs. list_images ''http://host/'' (day 20) (- 3) 0 ''recent'' None example_store = Inr vs \<and>
         map ImageOut.id vs = [2])"
proof -
  have a: "clamp_pagination 0 500 = (1, 100, 0) \<and>
      list_images ''http://host/'' (day 20) 0 500 ''recent'' None example_store =
        list_images ''http://host/'' (day 20) 1 100 ''recent'' None example_store \<and>
      (\<exists>vs. list_images ''http://host/'' (day 20) 0 500 ''recent'' None example_store = Inr vs \<and>
         map ImageOut.id vs = [2, 1])"
    using pagination_clamped [of 0 500 "''http://host/''" "day 20" "''recent''" None example_store]
    by (elim exE conjE) (auto simp: example_recent image_A_eq image_B_eq)
  have b: "clamp_pagination (- 3) 0 = (1, 1, 0) \<and>
      list_images ''http://host/'' (day 20) (- 3) 0 ''recent'' None example_store =
        list_images ''http://host/'' (day 20) 1 1 ''recent'' None example_store \<and>
      (\<exists>vs. list_images ''http://host/'' (day 20) (- 3) 0 ''recent'' None example_store = Inr vs \<and>
         map ImageOut.id vs = [2])"
    using pagination_clamped [of "- 3" 0 "''http://host/''" "day 20" "''recent''" None example_store]
    by (elim exE conjE) (auto simp: example_recent image_A_eq image_B_eq)
  have c: "clamp_pagination 3 20 = (3, 20, 40)"
    using pagination_clamped [of 3 20 "''http://host/''" "day 20" "''recent''" None example_store]
    by (elim exE conjE) simp
  show ?thesis using a b c by blast
qed



text \<open>
  Claim C8. An image without Like rows is among the rows of the \<^verbatim>\<open>popular\<close> and of the
  \<^verbatim>\<open>trending\<close> statement, and every view model of it, in any listing, has
  \<^verbatim>\<open>likes_count\<close> 0. Some page of each listing shows it; the offset of that page is
  the position of the image, which the store takes in a table of at most 2^63 rows.
\<close>

theorem zero_likes_listed:
  assumes "img \<in> set (images s)" and "count_likes (likes s) (Image.id img) = 0"
  shows "img \<in> set (popular_stmt s) \<and> img \<in> set (trending_stmt now s) \<and>
         (length (images s) \<le> 2 ^ 63 \<longrightarrow>
            (\<exists>page v. list_images base_url now page 1 ''popular'' uhash s = Inr [v] \<and>
                    ImageOut.id v = Image.id img \<and>
                    ImageOut.stored_filename v = Image.stored_filename img \<and>
                    ImageOut.likes_count v = 0) \<and>
            (\<exists>page v. list_images base_url now page 1 ''trending'' uhash s = Inr [v] \<and>
                    ImageOut.id v = Image.id img \<and>
                    ImageOut.stored_filename v = Image.stored_filename img \<and>
                    ImageOut.likes_count v = 0)) \<and>
         (\<forall>vs. list_images base_url now page' limit srt uhash s = Inr vs \<longrightarrow>
            (\<forall>v \<in> set vs. ImageOut.id v = Image.id img \<longrightarrow> ImageOut.likes_count v = 0))"
proof (intro conjI impI allI)
  show p: "img \<in> set (popular_stmt s)"
    using assms(1) by (simp add: popular_stmt_def set_order_by_desc)
  show t: "img \<in> set (trending_stmt now s)"
    using assms(1) by (simp add: trending_stmt_def Let_def set_order_by_desc)
  {
    fix vs
    assume "list_images base_url now page' limit srt uhash s = Inr vs"
    then show "\<forall>v \<in> set vs. ImageOut.id v = Image.id img \<longrightarrow> ImageOut.likes_count v = 0"
      using assms(2) list_images_likes_count by force
  }
  assume len: "length (images s) \<le> 2 ^ 63"
  have lp: "length (popular_stmt s) \<le> 2 ^ 63"
    using len by (simp add: popular_stmt_def order_by_desc_def)
  have lt: "length (trending_stmt now s) \<le> 2 ^ 63"
    using len by (simp add: trending_stmt_def order_by_desc_def Let_def)
  obtain page where "(max 1 page - 1) * max 1 (min 100 1) < 2 ^ 63"
    and "offset_limit ((max 1 page - 1) * max 1 (min 100 1)) (max 1 (min 100 1))
                       (popular_stmt s) = [img]"
    using listed_on_some_page [OF p lp] by blast
  then show "\<exists>page v. list_images base_url now page 1 ''popular'' uhash s = Inr [v] \<and>
                    ImageOut.id v = Image.id img \<and>
                    ImageOut.stored_filename v = Image.stored_filename img \<and>
                    ImageOut.likes_count v = 0"
    using list_images_single [of page 1 "''popular''" s now img base_url uhash] assms(2)
    by auto
  obtain page where "(max 1 page - 1) * max 1 (min 100 1) < 2 ^ 63"
    and "offset_limit ((max 1 page - 1) * max 1 (min 100 1)) (max 1 (min 100 1))
                       (trending_stmt now s) = [img]"
    using listed_on_some_page [OF t lt] by blast
  then show "\<exists>page v. list_images base_url now page 1 ''trending'' uhash s = Inr [v] \<and>
                    ImageOut.id v = Image.id img \<and>
                    ImageOut.stored_filename v = Image.stored_filename img \<and>
                    ImageOut.likes_count v = 0"
    using list_images_single [of page 1 "''trending''" s now img base_url uhash] assms(2)
    by auto
qed

theorem zero_likes_listed_witness:
  "image_C \<in> set (images three_images) \<and>
   count_likes (likes three_images) (Image.id image_C) = 0 \<and>
   length (images three_images) \<le> 2 ^ 63 \<and>
   image_C \<in> set (popular_stmt three_images) \<and>
   image_C \<in> set (trending_stmt (day 20) three_images) \<and>
   (\<exists>page v. list_images ''http://host/'' (day 20) page 1 ''popular'' None three_images = Inr [v] \<and>
             ImageOut.id v = 3 \<and> ImageOut.likes_count v = 0) \<and>
   (\<exists>page v. list_images ''http://host/'' (day 20) page 1 ''trending'' None three_images = Inr [v] \<and>
             ImageOut.id v = 3 \<and> ImageOut.likes_count v = 0)"
proof -
  have m: "image_C \<in> set (images three_images)"
    by (simp add: three_images_images image_C_eq)
  have c: "count_likes (likes three_images) (Image.id image_C) = 0"
    by (simp add: three_images_likes example_counts)
  have i: "Image.id image_C = 3"
    by (simp add: image_C_eq)
  have l: "length (images three_images) \<le> 2 ^ 63"
    by (simp add: three_images_images)
  show ?thesis
    using zero_likes_listed [OF m c, of "day 20" "''http://host/''" None 1 20 "''popular''"] m c l
    unfolding i by blast
qed


section \<open>Uploading\<close>

lemma upload_image_returns:
  "(\<forall>v. fst (upload_image path_name path_suffix uuid_hex now base_url authorName imageName
               f s) = Inr v \<longrightarrow>
        ImageOut.likes_count v = 0 \<and> \<not> ImageOut.liked_by_user v \<and>
        ImageOut.id v = next_id (map Image.id (images s)) \<and>
        ImageOut.author_name v = authorName \<and> ImageOut.image_name v = imageName \<and>
        ImageOut.id v \<in> Image.id ` set (images (snd (upload_image path_name path_suffix uuid_hex
               now base_url authorName imageName f s))) \<and>
        likes (snd (upload_image path_name path_suffix uuid_hex now base_url authorName imageName
               f s)) = likes s) \<and>
   ((\<exists>v. fst (upload_image path_name path_suffix uuid_hex now base_url authorName imageName
               f s) = Inr v) \<or>
    fst (upload_image path_name path_suffix uuid_hex now base_url authorName imageName
               f s) = Inl IntegrityError) \<and>
   ((\<forall>i \<in> set (images s). take (length uuid_hex) (Image.stored_filename i) \<noteq> uuid_hex) \<longrightarrow>
    (\<exists>v. fst (upload_image path_name path_suffix uuid_hex now base_url authorName imageName
               f s) = Inr v))"
proof (intro conjI allI impI)
  fix v
  assume "fst (upload_image path_name path_suffix uuid_hex now base_url authorName imageName
               f s) = Inr v"
  then show "ImageOut.likes_count v = 0" and "\<not> ImageOut.liked_by_user v"
    and "ImageOut.id v = next_id (map Image.id (images s))"
    and "ImageOut.author_name v = authorName" and "ImageOut.image_name v = imageName"
    and "ImageOut.id v \<in> Image.id ` set (images (snd (upload_image path_name path_suffix uuid_hex
               now base_url authorName imageName f s)))"
    and "likes (snd (upload_image path_name path_suffix uuid_hex now base_url authorName imageName
               f s)) = likes s"
    unfolding upload_image_some Let_def
    by (auto split: if_splits)
next
  show "(\<exists>v. fst (upload_image path_name path_suffix uuid_hex now base_url authorName imageName
               f s) = Inr v) \<or>
    fst (upload_image path_name path_suffix uuid_hex now base_url authorName imageName
               f s) = Inl IntegrityError"
    unfolding upload_image_some Let_def by simp
next
  assume fresh: "\<forall>i \<in> set (images s). take (length uuid_hex) (Image.stored_filename i) \<noteq> uuid_hex"
  have "\<not> (\<exists>i \<in> set (images s). Image.stored_filename i = uuid_hex @ ext)" for ext
  proof
    assume "\<exists>i \<in> set (images s). Image.stored_filename i = uuid_hex @ ext"
    then obtain i where "i \<in> set (images s)" and "Image.stored_filename i = uuid_hex @ ext"
      by auto
    then show False using fresh by auto
  qed
  then show "\<exists>v. fst (upload_image path_name path_suffix uuid_hex now base_url authorName imageName
               f s) = Inr v"
    unfolding upload_image_some Let_def by simp
qed

lemma post_image_no_file:
  "post_image path_name path_suffix uuid_hex now base_url authorName imageName None s =
     (Inl RequestValidationError, s)"
  by (simp add: post_image_def)

lemma post_image_never_400:
  "fst (post_image path_name path_suffix uuid_hex now base_url authorName imageName image_part s)
     \<noteq> Inl (HTTPException status detail)"
proof (cases image_part)
  case None
  then show ?thesis by (simp add: post_image_def)
next
  case (Some f)
  then show ?thesis
    unfolding post_image_def upload_image_some Let_def by simp
qed

text \<open>
  Claim C9. A request to \<^verbatim>\<open>POST /image\<close> without the part \<^verbatim>\<open>image\<close> does not get the 400
  of the claim: the part is required, the framework answers with its validation error
  (422) and does not call the handler, whose guard would raise the 400. No request gets
  an \<^verbatim>\<open>HTTPException\<close> from this route. With a file and a new stored name, the view model
  of the new row has \<^verbatim>\<open>likes_count\<close> 0 and \<^verbatim>\<open>liked_by_user\<close> false.
\<close>

theorem post_image_without_file:
  "post_image (\<lambda>p. p) (\<lambda>p. ''.jpg'') ''cc'' (day 3) ''http://host/'' None (Some ''Cat'')
     None two_images = (Inl RequestValidationError, two_images) \<and>
   fst (post_image (\<lambda>p. p) (\<lambda>p. ''.jpg'') ''cc'' (day 3) ''http://host/'' None (Some ''Cat'')
          None two_images) \<noteq> Inl (HTTPException 400 ''No image file provided'') \<and>
   (\<exists>v. fst (post_image (\<lambda>p. p) (\<lambda>p. ''.jpg'') ''cc'' (day 3) ''http://host/'' None
               (Some ''Cat'') (Some example_file) two_images) = Inr v \<and>
        ImageOut.id v = 3 \<and> ImageOut.likes_count v = 0 \<and> \<not> ImageOut.liked_by_user v)"
proof -
  have "\<exists>v. fst (upload_image (\<lambda>p. p) (\<lambda>p. ''.jpg'') ''cc'' (day 3) ''http://host/'' None
               (Some ''Cat'') example_file two_images) = Inr v \<and>
        ImageOut.id v = 3 \<and> ImageOut.likes_count v = 0 \<and> \<not> ImageOut.liked_by_user v"
    unfolding upload_image_some Let_def
    by (simp add: two_images_eq example_file_def next_id_def)
  then show ?thesis
    by (simp add: post_image_def)
qed


end
